theory Spec2Isabelle
  imports Main "HOL-Library.Word"
begin

unbundle bit_operations_syntax

section \<open>Python values\<close>

text \<open>
  A Python \<open>str\<close> is a sequence of Unicode code points and \<open>len\<close> counts code points,
  so a string is a list of code points here. \<open>bytes\<close> is a list of octets.
\<close>

type_synonym pystr = "nat list"
type_synonym pybytes = "8 word list"

definition lit :: "string \<Rightarrow> pystr" where
  "lit s = map of_char s"

text \<open>
  The exceptions the program can raise. \<open>FuseOSError\<close> carries an errno; the others are
  Python's built-in exceptions, \<open>NameError\<close> with the name that is not defined.
\<close>

datatype error =
    FuseOSError int
  | AssertionError
  | IndexError
  | KeyError
  | NameError string
  | TypeError
  | ValueError
  | AttributeError
  | UnicodeEncodeError

text \<open>
  A Python \<open>float\<close> is kept abstract. The program observes two things of it: its truth
  value (\<open>0.0\<close> is false) and the text \<open>json.dumps\<close> prints for it (\<open>float.__repr__\<close>, or
  \<open>NaN\<close>, \<open>Infinity\<close>, \<open>-Infinity\<close>), which is printable ASCII.
\<close>

typedef pyfloat = "{(nz :: bool, r :: nat list). \<forall>c \<in> set r. 32 \<le> c \<and> c < 127}"
  by (rule exI [of _ "(False, [])"]) simp

setup_lifting type_definition_pyfloat

lift_definition float_nonzero :: "pyfloat \<Rightarrow> bool" is "\<lambda>(nz, r). nz" .

lift_definition float_repr :: "pyfloat \<Rightarrow> pystr" is "\<lambda>(nz, r). r" .

text \<open>
  The values \<open>res.json()\<close> can give: \<open>None\<close>, \<open>bool\<close>, \<open>int\<close>, \<open>float\<close>, \<open>str\<close>, \<open>list\<close>
  and \<open>dict\<close>. A \<open>dict\<close> keeps its keys in insertion order, so it is an association list.
\<close>

datatype json =
    JNull
  | JBool bool
  | JInt int
  | JFloat pyfloat
  | JStr pystr
  | JList "json list"
  | JDict "(pystr \<times> json) list"

text \<open>The truth value of an object, as \<open>if\<close> and \<open>and\<close> test it.\<close>

fun truthy :: "json \<Rightarrow> bool" where
  "truthy JNull = False"
| "truthy (JBool b) = b"
| "truthy (JInt i) = (i \<noteq> 0)"
| "truthy (JFloat f) = float_nonzero f"
| "truthy (JStr s) = (s \<noteq> [])"
| "truthy (JList xs) = (xs \<noteq> [])"
| "truthy (JDict kvs) = (kvs \<noteq> [])"

text \<open>\<open>d.get(k)\<close>: the value stored under \<open>k\<close>, \<open>None\<close> when the key is absent.\<close>

definition dict_get :: "(pystr \<times> json) list \<Rightarrow> pystr \<Rightarrow> json" where
  "dict_get d k = (case map_of d k of None \<Rightarrow> JNull | Some v \<Rightarrow> v)"

text \<open>\<open>doc[k]\<close>: KeyError when the key is absent, TypeError on an object with no string keys.\<close>

fun getitem :: "json \<Rightarrow> pystr \<Rightarrow> error + json" where
  "getitem (JDict d) k = (case map_of d k of None \<Rightarrow> Inl KeyError | Some v \<Rightarrow> Inr v)"
| "getitem _ k = Inl TypeError"

text \<open>\<open>s.startswith(p)\<close>.\<close>

definition startswith :: "pystr \<Rightarrow> pystr \<Rightarrow> bool" where
  "startswith s p = (take (length p) s = p)"

text \<open>
  \<open>s.rpartition(sep)\<close>: split at the last occurrence of \<open>sep\<close> into the part before
  it, \<open>sep\<close> itself and the part after it; \<open>('', '', s)\<close> when \<open>sep\<close> does not occur.
  The scan keeps the occurrence found in the rest of the string, if there is one, and
  looks at the current position only otherwise. (Python raises ValueError for an empty
  separator; the program only passes the literal \<open>'.json'\<close>.)
\<close>

fun rpartition :: "pystr \<Rightarrow> pystr \<Rightarrow> pystr \<times> pystr \<times> pystr" where
  "rpartition [] sep = ([], [], [])"
| "rpartition (c # s) sep =
     (case rpartition s sep of
        (h, m, t) \<Rightarrow>
          if m \<noteq> [] then (c # h, m, t)
          else if startswith (c # s) sep then ([], sep, drop (length sep) (c # s))
          else ([], [], c # s))"

text \<open>
  \<open>xs[i:j]\<close>: a negative index counts from the end, and both indices are clamped to
  \<open>0 .. len(xs)\<close>; the slice is empty when the upper index is not above the lower one.
\<close>

definition clamp_index :: "int \<Rightarrow> nat \<Rightarrow> nat" where
  "clamp_index i n = (if i < 0 then nat (max 0 (i + int n)) else min (nat i) n)"

definition pyslice :: "'a list \<Rightarrow> int \<Rightarrow> int \<Rightarrow> 'a list" where
  "pyslice xs i j =
     (let lo = clamp_index i (length xs); hi = clamp_index j (length xs)
      in take (hi - lo) (drop lo xs))"

subsection \<open>\<open>str.encode()\<close>: UTF-8\<close>

text \<open>
  One to four octets per code point; a surrogate (U+D800 to U+DFFF) cannot be encoded
  and raises UnicodeEncodeError.
\<close>

definition utf8 :: "nat \<Rightarrow> error + pybytes" where
  "utf8 c =
     (if c < 128 then Inr [of_nat c]
      else if c < 2048 then Inr [of_nat (192 + c div 64), of_nat (128 + c mod 64)]
      else if 55296 \<le> c \<and> c < 57344 then Inl UnicodeEncodeError
      else if c < 65536 then
        Inr [of_nat (224 + c div 4096), of_nat (128 + c div 64 mod 64),
             of_nat (128 + c mod 64)]
      else
        Inr [of_nat (240 + c div 262144), of_nat (128 + c div 4096 mod 64),
             of_nat (128 + c div 64 mod 64), of_nat (128 + c mod 64)])"

fun encode :: "pystr \<Rightarrow> error + pybytes" where
  "encode [] = Inr []"
| "encode (c # s) =
     (case utf8 c of
        Inl e \<Rightarrow> Inl e
      | Inr b \<Rightarrow> (case encode s of Inl e \<Rightarrow> Inl e | Inr bs \<Rightarrow> Inr (b @ bs)))"

subsection \<open>\<open>json.dumps(obj, indent=2)\<close>\<close>

text \<open>
  The standard library's encoder with its defaults: \<open>ensure_ascii=True\<close>, item
  separator \<open>','\<close> and key separator \<open>': '\<close> (the defaults when an indent is given), keys
  in the dict's own order.

  An \<open>int\<close> is printed in decimal.
\<close>

fun digits :: "nat \<Rightarrow> pystr" where
  "digits n = (if n < 10 then [48 + n] else digits (n div 10) @ [48 + n mod 10])"

declare digits.simps [simp del]

definition int_repr :: "int \<Rightarrow> pystr" where
  "int_repr i = (if i < 0 then 45 # digits (nat (- i)) else digits (nat i))"

text \<open>\<open>'{0:04x}'.format(n)\<close>: lower-case hexadecimal, padded with zeros to four digits.\<close>

definition hexdigit :: "nat \<Rightarrow> nat" where
  "hexdigit d = (if d < 10 then 48 + d else 87 + d)"

fun hex :: "nat \<Rightarrow> pystr" where
  "hex n = (if n < 16 then [hexdigit n] else hex (n div 16) @ [hexdigit (n mod 16)])"

declare hex.simps [simp del]

definition format_04x :: "nat \<Rightarrow> pystr" where
  "format_04x n = replicate (4 - length (hex n)) 48 @ hex n"

text \<open>
  A string is printed between double quotes. Backslash, the double quote and the
  control characters with a short form are escaped with a backslash; every other code
  point outside \<open>' '\<close> to \<open>'~'\<close> is written \<open>\uXXXX\<close>, as a surrogate pair above U+FFFF.
\<close>

definition escape :: "nat \<Rightarrow> pystr" where
  "escape c =
     (if c = 92 then [92, 92]
      else if c = 34 then [92, 34]
      else if c = 8 then [92, 98]
      else if c = 12 then [92, 102]
      else if c = 10 then [92, 110]
      else if c = 13 then [92, 114]
      else if c = 9 then [92, 116]
      else if 32 \<le> c \<and> c \<le> 126 then [c]
      else if c < 65536 then [92, 117] @ format_04x c
      else [92, 117] @ format_04x (55296 + (c - 65536) div 1024 mod 1024)
         @ [92, 117] @ format_04x (56320 + (c - 65536) mod 1024))"

definition encode_basestring_ascii :: "pystr \<Rightarrow> pystr" where
  "encode_basestring_ascii s = [34] @ concat (map escape s) @ [34]"

text \<open>\<open>sep.join(xs)\<close>.\<close>

fun join :: "pystr \<Rightarrow> pystr list \<Rightarrow> pystr" where
  "join sep [] = []"
| "join sep [x] = x"
| "join sep (x # y # ys) = x @ sep @ join sep (y # ys)"

text \<open>A line break followed by the indentation of a nesting level, two spaces per level.\<close>

definition newline_indent :: "nat \<Rightarrow> pystr" where
  "newline_indent level = 10 # replicate (2 * level) 32"

text \<open>
  An empty list or dict is printed as \<open>[]\<close> or \<open>{}\<close>; a non-empty one puts every item
  on a line of its own, one level deeper, and the closing bracket on a line at the outer
  level.
\<close>

fun iterencode :: "nat \<Rightarrow> json \<Rightarrow> pystr"
  and iterencode_list :: "nat \<Rightarrow> json list \<Rightarrow> pystr list"
  and iterencode_dict :: "nat \<Rightarrow> (pystr \<times> json) list \<Rightarrow> pystr list" where
  "iterencode level JNull = lit ''null''"
| "iterencode level (JBool b) = (if b then lit ''true'' else lit ''false'')"
| "iterencode level (JInt i) = int_repr i"
| "iterencode level (JFloat f) = float_repr f"
| "iterencode level (JStr s) = encode_basestring_ascii s"
| "iterencode level (JList xs) =
     (if xs = [] then lit ''[]''
      else lit ''['' @ newline_indent (Suc level)
         @ join (lit '','' @ newline_indent (Suc level)) (iterencode_list (Suc level) xs)
         @ newline_indent level @ lit '']'')"
| "iterencode level (JDict kvs) =
     (if kvs = [] then lit ''{}''
      else lit ''{'' @ newline_indent (Suc level)
         @ join (lit '','' @ newline_indent (Suc level)) (iterencode_dict (Suc level) kvs)
         @ newline_indent level @ lit ''}'')"
| "iterencode_list level [] = []"
| "iterencode_list level (x # xs) = iterencode level x # iterencode_list level xs"
| "iterencode_dict level [] = []"
| "iterencode_dict level ((k, v) # kvs) =
     (encode_basestring_ascii k @ lit '': '' @ iterencode level v)
       # iterencode_dict level kvs"

definition dumps :: "json \<Rightarrow> pystr" where
  "dumps obj = iterencode 0 obj"

section \<open>The remote store\<close>

text \<open>
  What the program sees of the \<open>cloudant\<close> client. A response has a status code, a text
  and \<open>res.json()\<close>, which decodes the text or raises ValueError when the text is not
  JSON (\<open>None\<close> here). The account answers \<open>account.get(id)\<close> with a response, lists the
  database names (\<open>account.all_dbs().json()\<close>) and lists the rows of a database
  (\<open>account[name].all_docs()\<close>), each row with the id of a document. Failures of the
  transport itself are outside the model.
\<close>

record response =
  status_code :: int
  res_text :: pystr
  res_json :: "json option"

record row =
  row_id :: pystr

record account =
  acc_get :: "pystr \<Rightarrow> response"
  acc_all_dbs :: "pystr list"
  acc_all_docs :: "json \<Rightarrow> row list"

definition NOT_FOUND :: int where
  "NOT_FOUND = 404"

definition OK :: int where
  "OK = 200"

definition ENOENT :: int where
  "ENOENT = 2"

definition S_IFDIR :: nat where
  "S_IFDIR = 16384"

definition S_IFREG :: nat where
  "S_IFREG = 32768"

section \<open>couchfs/utils.py\<close>

text \<open>
  \<open>is_db\<close> and \<open>is_doc\<close> start with \<^verbatim>\<open>assert isinstance(doc, dict)\<close> and then test
  two keys with \<open>doc.get(..) and doc.get(..)\<close>.
\<close>

fun is_db :: "json \<Rightarrow> error + bool" where
  "is_db (JDict d) =
     Inr (truthy (dict_get d (lit ''db_name'')) \<and> truthy (dict_get d (lit ''update_seq'')))"
| "is_db _ = Inl AssertionError"

fun is_doc :: "json \<Rightarrow> error + bool" where
  "is_doc (JDict d) =
     Inr (truthy (dict_get d (lit ''_id'')) \<and> truthy (dict_get d (lit ''_rev'')))"
| "is_doc _ = Inl AssertionError"

section \<open>couchfs/couch.py\<close>

text \<open>
  \<open>Couch._get_doc_id\<close>:
  \<^verbatim>\<open>name_part = path.rpartition('.json')\<close>,
  \<^verbatim>\<open>return name_part[0] if name_part[1] else name_part[2]\<close>.
\<close>

definition get_doc_id :: "pystr \<Rightarrow> pystr" where
  "get_doc_id path =
     (case rpartition path (lit ''.json'') of
        (h, m, t) \<Rightarrow> if m \<noteq> [] then h else t)"

text \<open>
  \<open>Couch._get_doc_body\<close>: \<^verbatim>\<open>try: doc = res.json()\<close> with the handler
  \<^verbatim>\<open>except JSONDecoder as e\<close>. \<open>JSONDecoder\<close> is not an exception class, so when
  \<open>res.json()\<close> raises, matching the handler raises TypeError and the fallback to
  \<open>res.text\<close> is never reached.
\<close>

definition get_doc_body :: "response \<Rightarrow> error + json" where
  "get_doc_body res = (case res_json res of None \<Rightarrow> Inl TypeError | Some doc \<Rightarrow> Inr doc)"

text \<open>\<open>Couch._get_doc_formated\<close>: \<^verbatim>\<open>assert isinstance(doc, dict)\<close>, then \<^verbatim>\<open>dumps(doc, indent=2)\<close>.\<close>

fun get_doc_formated :: "json \<Rightarrow> error + pystr" where
  "get_doc_formated (JDict d) = Inr (dumps (JDict d))"
| "get_doc_formated _ = Inl AssertionError"

text \<open>
  \<open>Couch._get_doc(path, raw, check_doc, formated)\<close>, in the order of the source:
  \<^item> \<^verbatim>\<open>assert not (raw and is_doc)\<close> tests the function \<open>is_doc\<close>, which is always
    true, so the assertion fails whenever \<open>raw\<close> is set (and \<^verbatim>\<open>if raw: return res\<close>
    further down is never reached); then \<^verbatim>\<open>assert not (raw and formated)\<close>;
  \<^item> the fetch of \<open>_get_doc_id(path)\<close>; status 404 raises \<open>FuseOSError(ENOENT)\<close>;
  \<^item> any other status but 200 reaches the second \<open>log.debug\<close> call, whose argument
    \<^verbatim>\<open>'content {}{}'.format(res.text[:200])\<close> has two fields and one value:
    IndexError;
  \<^item> the body; with \<open>check_doc\<close>, a body that is not a document reaches
    \<^verbatim>\<open>raise FuseOSError(EIO)\<close>, and the module imports \<open>ENOENT\<close> only: NameError;
  \<^item> with \<open>formated\<close> the formatted text (a \<open>str\<close>), else the body.
\<close>

definition get_doc :: "account \<Rightarrow> pystr \<Rightarrow> bool \<Rightarrow> bool \<Rightarrow> bool \<Rightarrow> error + json" where
  "get_doc acc path raw check_doc formated =
     (if raw then Inl AssertionError
      else if raw \<and> formated then Inl AssertionError
      else
        let res = acc_get acc (get_doc_id path);
            code = status_code res
        in
          if code = NOT_FOUND then Inl (FuseOSError ENOENT)
          else if code \<noteq> OK then Inl IndexError
          else
            (case get_doc_body res of
               Inl e \<Rightarrow> Inl e
             | Inr body \<Rightarrow>
                 (case (if check_doc then is_doc body else Inr True) of
                    Inl e \<Rightarrow> Inl e
                  | Inr False \<Rightarrow> Inl (NameError ''EIO'')
                  | Inr True \<Rightarrow>
                      if formated then
                        (case get_doc_formated body of
                           Inl e \<Rightarrow> Inl e
                         | Inr s \<Rightarrow> Inr (JStr s))
                      else Inr body)))"

text \<open>
  \<open>Couch.read(path, size, offset, fh)\<close>:
  \<^verbatim>\<open>body = self._get_doc(path[1:], check_doc=True, formated=True)\<close>,
  \<^verbatim>\<open>return body.encode()[offset:offset + size]\<close>. The parameter \<open>size\<close> is \<open>sz\<close>
  here; the file handle \<open>fh\<close> is not used.
\<close>

definition read :: "account \<Rightarrow> pystr \<Rightarrow> int \<Rightarrow> int \<Rightarrow> error + pybytes" where
  "read acc path sz offset =
     (case get_doc acc (drop 1 path) False True True of
        Inl e \<Rightarrow> Inl e
      | Inr (JStr body) \<Rightarrow>
          (case encode body of
             Inl e \<Rightarrow> Inl e
           | Inr bs \<Rightarrow> Inr (pyslice bs offset (offset + sz)))
      | Inr _ \<Rightarrow> Inl AttributeError)"

text \<open>
  The name \<open>readdir\<close> gives a document: the lambda \<^verbatim>\<open>'{}.json'.format(x['id'])\<close>.
\<close>

definition to_filename :: "pystr \<Rightarrow> pystr" where
  "to_filename ident = ident @ lit ''.json''"

text \<open>
  \<open>Couch.readdir(path, fh)\<close>. The root lists the databases after \<open>'.'\<close> and \<open>'..'\<close>.
  Any other path is fetched; when \<open>is_db\<close> holds, the rows of \<open>account[doc['db_name']]\<close>
  whose id does not start with \<open>'_design/'\<close> are listed by their file names. The function
  has no other \<open>return\<close>: otherwise the result is Python's \<open>None\<close>.
\<close>

definition readdir :: "account \<Rightarrow> pystr \<Rightarrow> error + pystr list option" where
  "readdir acc path =
     (let ret = [lit ''.'', lit ''..''] in
      if path = lit ''/'' then Inr (Some (ret @ acc_all_dbs acc))
      else
        (case get_doc acc (drop 1 path) False False False of
           Inl e \<Rightarrow> Inl e
         | Inr doc \<Rightarrow>
             (case is_db doc of
                Inl e \<Rightarrow> Inl e
              | Inr True \<Rightarrow>
                  (case getitem doc (lit ''db_name'') of
                     Inl e \<Rightarrow> Inl e
                   | Inr name \<Rightarrow>
                       Inr (Some (ret @
                         map (\<lambda>x. to_filename (row_id x))
                           (filter (\<lambda>x. if startswith (row_id x) (lit ''_design/'')
                                        then False else True)
                              (acc_all_docs acc name)))))
              | Inr False \<Rightarrow> Inr None)))"

text \<open>
  \<open>Couch.getattr(path, fh)\<close>. The dict it returns has no \<open>st_size\<close> for the root.
\<close>

record stat =
  st_mode :: nat
  st_nlink :: nat
  st_size :: "nat option"

definition getattr :: "account \<Rightarrow> pystr \<Rightarrow> error + stat" where
  "getattr acc path =
     (if path = lit ''/'' then
        Inr \<lparr>st_mode = S_IFDIR OR 493, st_nlink = 2 + length (acc_all_dbs acc),
             st_size = None\<rparr>
      else
        (case get_doc acc (drop 1 path) False False False of
           Inl e \<Rightarrow> Inl e
         | Inr doc \<Rightarrow>
             (case is_db doc of
                Inl e \<Rightarrow> Inl e
              | Inr True \<Rightarrow>
                  Inr \<lparr>st_mode = S_IFDIR OR 493, st_nlink = 2, st_size = Some 4096\<rparr>
              | Inr False \<Rightarrow>
                  (case is_doc doc of
                     Inl e \<Rightarrow> Inl e
                   | Inr True \<Rightarrow>
                       (case get_doc_formated doc of
                          Inl e \<Rightarrow> Inl e
                        | Inr s \<Rightarrow>
                            Inr \<lparr>st_mode = S_IFREG OR 493, st_nlink = 1,
                                 st_size = Some (length s)\<rparr>)
                   | Inr False \<Rightarrow>
                       Inr \<lparr>st_mode = S_IFREG OR 493, st_nlink = 1,
                            st_size = Some 0\<rparr>))))"

text \<open>
  The kind of entity the \<open>if is_db(doc)\<close> / \<open>elif is_doc(doc)\<close> chain of \<open>getattr\<close>
  takes a fetched value for: a database first, a document next, anything else last.
\<close>

datatype entity = DatabaseDescriptor | Document | Opaque

definition classify :: "json \<Rightarrow> error + entity" where
  "classify doc =
     (case is_db doc of
        Inl e \<Rightarrow> Inl e
      | Inr True \<Rightarrow> Inr DatabaseDescriptor
      | Inr False \<Rightarrow>
          (case is_doc doc of
             Inl e \<Rightarrow> Inl e
           | Inr True \<Rightarrow> Inr Document
           | Inr False \<Rightarrow> Inr Opaque))"

section \<open>couch_fuse/couch.py\<close>

text \<open>
  The older module. Its \<open>_get_doc(path, raw)\<close> fetches \<open>path\<close> as it is, has the same
  two status branches and the same \<open>try\<close> / \<open>except JSONDecoder\<close> around \<open>res.json()\<close>,
  and ends with \<^verbatim>\<open>return doc if not raw else res\<close>. It imports \<open>is_db\<close> and \<open>is_doc\<close>
  from \<open>utils\<close>; the functions of couchfs/utils.py stand for them.
\<close>

datatype fetched = Decoded json | Raw response

definition fuse_get_doc :: "account \<Rightarrow> pystr \<Rightarrow> bool \<Rightarrow> error + fetched" where
  "fuse_get_doc acc path raw =
     (let res = acc_get acc path;
          code = status_code res
      in
        if code = NOT_FOUND then Inl (FuseOSError ENOENT)
        else if code \<noteq> OK then Inl IndexError
        else
          (case res_json res of
             None \<Rightarrow> Inl TypeError
           | Some doc \<Rightarrow> Inr (if \<not> raw then Decoded doc else Raw res)))"

text \<open>
  Its \<open>read\<close>: \<^verbatim>\<open>res = self._get_doc(path[1:], raw=True)\<close>, \<^verbatim>\<open>doc = res.json()\<close>,
  \<^verbatim>\<open>if not is_doc(doc): raise FuseOSError(EIO)\<close> (\<open>EIO\<close> is not imported here
  either), \<^verbatim>\<open>return res.text.encode()[offset:offset + size]\<close>.
\<close>

definition fuse_read :: "account \<Rightarrow> pystr \<Rightarrow> int \<Rightarrow> int \<Rightarrow> error + pybytes" where
  "fuse_read acc path sz offset =
     (case fuse_get_doc acc (drop 1 path) True of
        Inl e \<Rightarrow> Inl e
      | Inr (Decoded doc) \<Rightarrow> Inl AttributeError
      | Inr (Raw res) \<Rightarrow>
          (case res_json res of
             None \<Rightarrow> Inl ValueError
           | Some doc \<Rightarrow>
               (case is_doc doc of
                  Inl e \<Rightarrow> Inl e
                | Inr False \<Rightarrow> Inl (NameError ''EIO'')
                | Inr True \<Rightarrow>
                    (case encode (res_text res) of
                       Inl e \<Rightarrow> Inl e
                     | Inr bs \<Rightarrow> Inr (pyslice bs offset (offset + sz))))))"

text \<open>Its \<open>readdir\<close> lists the ids as they are (\<^verbatim>\<open>lambda x: x['id']\<close>).\<close>

definition fuse_readdir :: "account \<Rightarrow> pystr \<Rightarrow> error + pystr list option" where
  "fuse_readdir acc path =
     (let ret = [lit ''.'', lit ''..''] in
      if path = lit ''/'' then Inr (Some (ret @ acc_all_dbs acc))
      else
        (case fuse_get_doc acc (drop 1 path) False of
           Inl e \<Rightarrow> Inl e
         | Inr (Raw res) \<Rightarrow> Inl AssertionError
         | Inr (Decoded doc) \<Rightarrow>
             (case is_db doc of
                Inl e \<Rightarrow> Inl e
              | Inr True \<Rightarrow>
                  (case getitem doc (lit ''db_name'') of
                     Inl e \<Rightarrow> Inl e
                   | Inr name \<Rightarrow>
                       Inr (Some (ret @
                         map (\<lambda>x. row_id x)
                           (filter (\<lambda>x. if startswith (row_id x) (lit ''_design/'')
                                        then False else True)
                              (acc_all_docs acc name)))))
              | Inr False \<Rightarrow> Inr None)))"

section \<open>A store to run the operations on\<close>

text \<open>
  One database \<open>alpha\<close> with the documents \<open>doc1\<close> and \<open>_design/view1\<close>. \<open>_all_dbs\<close>
  answers with a JSON array, \<open>_utils\<close> with a page that is not JSON, \<open>_busy\<close> with
  status 500; every other address is not found.
\<close>

definition alpha_db :: json where
  "alpha_db = JDict [(lit ''db_name'', JStr (lit ''alpha'')), (lit ''update_seq'', JInt 5)]"

definition doc1 :: json where
  "doc1 = JDict [(lit ''_id'', JStr (lit ''doc1'')), (lit ''_rev'', JStr (lit ''1-abc'')),
                 (lit ''val'', JInt 42)]"

definition demo_get :: "pystr \<Rightarrow> response" where
  "demo_get ident =
     (if ident = lit ''alpha'' then
        \<lparr>status_code = 200, res_text = lit ''{}'', res_json = Some alpha_db\<rparr>
      else if ident = lit ''alpha/doc1'' then
        \<lparr>status_code = 200, res_text = lit ''{}'', res_json = Some doc1\<rparr>
      else if ident = lit ''_all_dbs'' then
        \<lparr>status_code = 200, res_text = lit ''[]'',
         res_json = Some (JList [JStr (lit ''alpha'')])\<rparr>
      else if ident = lit ''_utils'' then
        \<lparr>status_code = 200, res_text = lit ''<!DOCTYPE html>'', res_json = None\<rparr>
      else if ident = lit ''_busy'' then
        \<lparr>status_code = 500, res_text = lit ''{}'', res_json = Some (JDict [])\<rparr>
      else
        \<lparr>status_code = 404, res_text = lit ''{}'', res_json = Some (JDict [])\<rparr>)"

definition demo :: account where
  "demo =
     \<lparr>acc_get = demo_get,
      acc_all_dbs = [lit ''alpha''],
      acc_all_docs = (\<lambda>name.
        case name of
          JStr n \<Rightarrow>
            if n = lit ''alpha'' then
              [\<lparr>row_id = lit ''doc1''\<rparr>, \<lparr>row_id = lit ''_design/view1''\<rparr>]
            else []
        | _ \<Rightarrow> [])\<rparr>"

section \<open>Properties of the library functions\<close>

subsection \<open>\<open>rpartition\<close>\<close>

lemma rpartition_short:
  "length s < length sep \<Longrightarrow> rpartition s sep = ([], [], s)"
proof (induction s)
  case Nil
  show ?case by simp
next
  case (Cons c s)
  from Cons.prems have "rpartition s sep = ([], [], s)"
    by (intro Cons.IH) simp
  moreover from Cons.prems have "\<not> startswith (c # s) sep"
    by (auto simp: startswith_def)
  ultimately show ?case by simp
qed

lemma rpartition_self:
  assumes "sep \<noteq> []"
  shows "rpartition sep sep = ([], sep, [])"
proof -
  from assms obtain c s where sep: "sep = c # s"
    by (cases sep) auto
  have "rpartition s (c # s) = ([], [], s)"
    by (rule rpartition_short) simp
  then show ?thesis
    by (simp add: sep startswith_def)
qed

lemma rpartition_append_sep:
  assumes "sep \<noteq> []"
  shows "rpartition (x @ sep) sep = (x, sep, [])"
proof (induction x)
  case Nil
  show ?case using assms by (simp add: rpartition_self)
next
  case (Cons c x)
  then show ?case using assms by simp
qed

lemma rpartition_absent:
  assumes "\<And>h t. s \<noteq> h @ sep @ t"
  shows "rpartition s sep = ([], [], s)"
  using assms
proof (induction s)
  case Nil
  show ?case by simp
next
  case (Cons c s)
  have "s \<noteq> h @ sep @ t" for h t
    using Cons.prems [of "c # h" t] by simp
  then have rest: "rpartition s sep = ([], [], s)"
    by (rule Cons.IH)
  have "\<not> startswith (c # s) sep"
  proof
    assume "startswith (c # s) sep"
    then have "c # s = [] @ sep @ drop (length sep) (c # s)"
      unfolding startswith_def by (metis append_Nil append_take_drop_id)
    with Cons.prems show False by blast
  qed
  with rest show ?case by simp
qed

lemma lit_json_nonempty: "lit ''.json'' \<noteq> []"
  by (simp add: lit_def)

subsection \<open>\<open>json.dumps\<close> prints ASCII, which UTF-8 encodes octet for code point\<close>

lemma digits_ascii: "c \<in> set (digits n) \<Longrightarrow> c < 128"
proof (induction n arbitrary: c rule: digits.induct)
  case (1 n)
  show ?case
  proof (cases "n < 10")
    case True
    with "1.prems" show ?thesis by (simp add: digits.simps [of n])
  next
    case False
    with "1.prems" have "c \<in> set (digits (n div 10)) \<or> c = 48 + n mod 10"
      by (auto simp: digits.simps [of n])
    then show ?thesis
    proof
      assume "c \<in> set (digits (n div 10))"
      with False show ?thesis by (rule "1.IH")
    next
      assume "c = 48 + n mod 10"
      moreover have "n mod 10 < 10" by simp
      ultimately show ?thesis by linarith
    qed
  qed
qed

lemma int_repr_ascii: "c \<in> set (int_repr i) \<Longrightarrow> c < 128"
  by (auto simp: int_repr_def dest: digits_ascii split: if_splits)

lemma hexdigit_ascii: "d < 16 \<Longrightarrow> hexdigit d < 128"
  by (simp add: hexdigit_def)

lemma hex_ascii: "c \<in> set (hex n) \<Longrightarrow> c < 128"
proof (induction n arbitrary: c rule: hex.induct)
  case (1 n)
  show ?case
  proof (cases "n < 16")
    case True
    with "1.prems" show ?thesis by (simp add: hex.simps [of n] hexdigit_ascii)
  next
    case False
    with "1.prems" have "c \<in> set (hex (n div 16)) \<or> c = hexdigit (n mod 16)"
      by (auto simp: hex.simps [of n])
    then show ?thesis
    proof
      assume "c \<in> set (hex (n div 16))"
      with False show ?thesis by (rule "1.IH")
    next
      assume "c = hexdigit (n mod 16)"
      then show ?thesis by (simp add: hexdigit_ascii)
    qed
  qed
qed

lemma format_04x_ascii: "c \<in> set (format_04x n) \<Longrightarrow> c < 128"
  by (auto simp: format_04x_def dest: hex_ascii)

lemma escape_ascii: "c \<in> set (escape x) \<Longrightarrow> c < 128"
  by (auto simp: escape_def dest: format_04x_ascii split: if_splits)

lemma encode_basestring_ascii_ascii: "c \<in> set (encode_basestring_ascii s) \<Longrightarrow> c < 128"
  by (auto simp: encode_basestring_ascii_def dest: escape_ascii)

lemma float_repr_ascii: "c \<in> set (float_repr f) \<Longrightarrow> c < 128"
  by transfer auto

lemma newline_indent_ascii: "c \<in> set (newline_indent n) \<Longrightarrow> c < 128"
  by (auto simp: newline_indent_def)

lemma join_ascii:
  assumes sep: "\<And>c. c \<in> set sep \<Longrightarrow> c < 128"
  shows "(\<And>x c. x \<in> set xs \<Longrightarrow> c \<in> set x \<Longrightarrow> c < 128) \<Longrightarrow> c \<in> set (join sep xs) \<Longrightarrow> c < 128"
proof (induction xs arbitrary: c rule: induct_list012)
  case 1
  then show ?case by simp
next
  case (2 x)
  then show ?case by simp
next
  case (3 x y zs)
  from "3.prems"(2) have "c \<in> set x \<or> c \<in> set sep \<or> c \<in> set (join sep (y # zs))"
    by auto
  then show ?case
  proof (elim disjE)
    assume "c \<in> set x"
    then show ?thesis using "3.prems"(1) [of x c] by simp
  next
    assume "c \<in> set sep"
    then show ?thesis by (rule sep)
  next
    assume "c \<in> set (join sep (y # zs))"
    moreover have "x' \<in> set (y # zs) \<Longrightarrow> c' \<in> set x' \<Longrightarrow> c' < 128" for x' c'
      using "3.prems"(1) [of x' c'] by simp
    ultimately show ?thesis by (rule "3.IH"(2) [rotated])
  qed
qed

lemma separator_ascii: "c \<in> set (lit '','' @ newline_indent n) \<Longrightarrow> c < 128"
  by (auto simp: lit_def dest: newline_indent_ascii)

lemma iterencode_ascii:
  "c \<in> set (iterencode level v) \<Longrightarrow> c < 128"
  "x \<in> set (iterencode_list level vs) \<Longrightarrow> c \<in> set x \<Longrightarrow> c < 128"
  "x \<in> set (iterencode_dict level kvs) \<Longrightarrow> c \<in> set x \<Longrightarrow> c < 128"
proof (induction level v and level vs and level kvs arbitrary: c and c x and c x
    rule: iterencode_iterencode_list_iterencode_dict.induct)
  case (1 level)
  then show ?case by (auto simp: lit_def)
next
  case (2 level b)
  then show ?case by (auto simp: lit_def split: if_splits)
next
  case (3 level i)
  then show ?case by (auto dest: int_repr_ascii)
next
  case (4 level f)
  then show ?case by (auto dest: float_repr_ascii)
next
  case (5 level s)
  then show ?case by (auto dest: encode_basestring_ascii_ascii)
next
  case (6 level xs)
  show ?case
  proof (cases "xs = []")
    case True
    with "6.prems" show ?thesis by (auto simp: lit_def)
  next
    case False
    have items: "c' \<in> set (join (lit '','' @ newline_indent (Suc level))
        (iterencode_list (Suc level) xs)) \<Longrightarrow> c' < 128" for c'
    proof -
      assume m: "c' \<in> set (join (lit '','' @ newline_indent (Suc level))
        (iterencode_list (Suc level) xs))"
      show "c' < 128"
      proof (rule join_ascii [OF _ _ m])
        show "\<And>c. c \<in> set (lit '','' @ newline_indent (Suc level)) \<Longrightarrow> c < 128"
          by (rule separator_ascii)
        show "\<And>x c. x \<in> set (iterencode_list (Suc level) xs) \<Longrightarrow> c \<in> set x \<Longrightarrow> c < 128"
          by (rule "6.IH" [OF False])
      qed
    qed
    from "6.prems" False have "c \<in> set (lit ''['') \<union> set (newline_indent (Suc level))
        \<union> set (join (lit '','' @ newline_indent (Suc level)) (iterencode_list (Suc level) xs))
        \<union> set (newline_indent level) \<union> set (lit '']'')"
      by simp
    then show ?thesis
    proof (elim UnE)
      assume "c \<in> set (lit ''['')"
      then show ?thesis by (simp add: lit_def)
    next
      assume "c \<in> set (newline_indent (Suc level))"
      then show ?thesis by (rule newline_indent_ascii)
    next
      assume "c \<in> set (join (lit '','' @ newline_indent (Suc level)) (iterencode_list (Suc level) xs))"
      then show ?thesis by (rule items)
    next
      assume "c \<in> set (newline_indent level)"
      then show ?thesis by (rule newline_indent_ascii)
    next
      assume "c \<in> set (lit '']'')"
      then show ?thesis by (simp add: lit_def)
    qed
  qed
next
  case (7 level kvs)
  show ?case
  proof (cases "kvs = []")
    case True
    with "7.prems" show ?thesis by (auto simp: lit_def)
  next
    case False
    have items: "c' \<in> set (join (lit '','' @ newline_indent (Suc level))
        (iterencode_dict (Suc level) kvs)) \<Longrightarrow> c' < 128" for c'
    proof -
      assume m: "c' \<in> set (join (lit '','' @ newline_indent (Suc level))
        (iterencode_dict (Suc level) kvs))"
      show "c' < 128"
      proof (rule join_ascii [OF _ _ m])
        show "\<And>c. c \<in> set (lit '','' @ newline_indent (Suc level)) \<Longrightarrow> c < 128"
          by (rule separator_ascii)
        show "\<And>x c. x \<in> set (iterencode_dict (Suc level) kvs) \<Longrightarrow> c \<in> set x \<Longrightarrow> c < 128"
          by (rule "7.IH" [OF False])
      qed
    qed
    from "7.prems" False have "c \<in> set (lit ''{'') \<union> set (newline_indent (Suc level))
        \<union> set (join (lit '','' @ newline_indent (Suc level)) (iterencode_dict (Suc level) kvs))
        \<union> set (newline_indent level) \<union> set (lit ''}'')"
      by simp
    then show ?thesis
    proof (elim UnE)
      assume "c \<in> set (lit ''{'')"
      then show ?thesis by (simp add: lit_def)
    next
      assume "c \<in> set (newline_indent (Suc level))"
      then show ?thesis by (rule newline_indent_ascii)
    next
      assume "c \<in> set (join (lit '','' @ newline_indent (Suc level)) (iterencode_dict (Suc level) kvs))"
      then show ?thesis by (rule items)
    next
      assume "c \<in> set (newline_indent level)"
      then show ?thesis by (rule newline_indent_ascii)
    next
      assume "c \<in> set (lit ''}'')"
      then show ?thesis by (simp add: lit_def)
    qed
  qed
next
  case (8 level)
  then show ?case by simp
next
  case (9 level x xs)
  then show ?case by auto
next
  case (10 level)
  then show ?case by simp
next
  case (11 level k v kvs)
  then show ?case by (auto simp: lit_def dest: encode_basestring_ascii_ascii)
qed

lemma dumps_ascii: "c \<in> set (dumps v) \<Longrightarrow> c < 128"
  by (simp add: dumps_def iterencode_ascii(1))

lemma encode_ascii:
  "(\<And>c. c \<in> set s \<Longrightarrow> c < 128) \<Longrightarrow> encode s = Inr (map of_nat s)"
  by (induction s) (simp_all add: utf8_def)

lemma encode_dumps: "encode (dumps v) = Inr (map of_nat (dumps v))"
  by (rule encode_ascii) (rule dumps_ascii)

subsection \<open>Slices with indices that are not negative\<close>

lemma pyslice_nonneg:
  "0 \<le> i \<Longrightarrow> 0 \<le> k \<Longrightarrow> pyslice xs i (i + k) = take (nat k) (drop (nat i) xs)"
  by (auto simp: pyslice_def clamp_index_def Let_def min_def nat_add_distrib)

lemma pyslice_whole:
  "int (length xs) \<le> k \<Longrightarrow> pyslice xs 0 k = xs"
  using pyslice_nonneg [of 0 k xs] by simp

section \<open>Properties of the operations\<close>

subsection \<open>The identity codec\<close>

lemma get_doc_id_to_filename: "get_doc_id (to_filename x) = x"
  by (simp add: get_doc_id_def to_filename_def rpartition_append_sep lit_json_nonempty)

lemma get_doc_id_suffix: "get_doc_id (x @ lit ''.json'') = x"
  by (simp add: get_doc_id_def rpartition_append_sep lit_json_nonempty)

lemma get_doc_id_absent:
  "(\<And>h t. s \<noteq> h @ lit ''.json'' @ t) \<Longrightarrow> get_doc_id s = s"
  by (simp add: get_doc_id_def rpartition_absent)

lemma to_filename_inject: "to_filename x = to_filename y \<longleftrightarrow> x = y"
  by (simp add: to_filename_def)

subsection \<open>The fetch\<close>

lemma get_doc_plain:
  "get_doc acc p False False False = Inr doc \<longleftrightarrow>
     status_code (acc_get acc (get_doc_id p)) = 200
     \<and> res_json (acc_get acc (get_doc_id p)) = Some doc"
  by (auto simp: get_doc_def get_doc_body_def Let_def NOT_FOUND_def OK_def
      split: option.splits)

lemma get_doc_not_found:
  "status_code (acc_get acc (get_doc_id p)) = 404 \<Longrightarrow>
   get_doc acc p False check_doc formated = Inl (FuseOSError ENOENT)"
  by (simp add: get_doc_def NOT_FOUND_def)

lemma get_doc_other_status:
  "status_code (acc_get acc (get_doc_id p)) \<noteq> 404 \<Longrightarrow>
   status_code (acc_get acc (get_doc_id p)) \<noteq> 200 \<Longrightarrow>
   get_doc acc p False check_doc formated = Inl IndexError"
  by (simp add: get_doc_def NOT_FOUND_def OK_def)

lemma get_doc_undecodable:
  "status_code (acc_get acc (get_doc_id p)) = 200 \<Longrightarrow>
   res_json (acc_get acc (get_doc_id p)) = None \<Longrightarrow>
   get_doc acc p False check_doc formated = Inl TypeError"
  by (simp add: get_doc_def get_doc_body_def NOT_FOUND_def OK_def)

lemma is_doc_True_dict: "is_doc doc = Inr True \<Longrightarrow> \<exists>d. doc = JDict d"
  by (cases doc) simp_all

lemma is_db_True_dict: "is_db doc = Inr True \<Longrightarrow> \<exists>d. doc = JDict d"
  by (cases doc) simp_all

lemma get_doc_checked:
  assumes "get_doc acc p False False False = Inr doc" and "is_doc doc = Inr True"
  shows "get_doc acc p False True True = Inr (JStr (dumps doc))"
proof -
  from assms(2) obtain d where d: "doc = JDict d"
    by (auto dest: is_doc_True_dict)
  from assms(1) have "status_code (acc_get acc (get_doc_id p)) = 200"
    and "res_json (acc_get acc (get_doc_id p)) = Some doc"
    by (simp_all add: get_doc_plain)
  with assms(2) show ?thesis
    by (simp add: get_doc_def get_doc_body_def Let_def NOT_FOUND_def OK_def d)
qed

lemma classify_Document:
  "classify doc = Inr Document \<longleftrightarrow> is_db doc = Inr False \<and> is_doc doc = Inr True"
  by (auto simp: classify_def split: sum.splits bool.splits)

subsection \<open>Reading and listing\<close>

lemma read_document:
  assumes "get_doc acc (drop 1 path) False False False = Inr doc" and "is_doc doc = Inr True"
  shows "read acc path sz offset = Inr (pyslice (map of_nat (dumps doc)) offset (offset + sz))"
  using get_doc_checked [OF assms] by (simp add: read_def encode_dumps)

lemma read_non_document:
  assumes "get_doc acc (drop 1 path) False False False = Inr doc"
    and "is_doc doc \<noteq> Inr True"
  shows "read acc path sz offset =
    Inl (case is_doc doc of Inl e \<Rightarrow> e | Inr b \<Rightarrow> NameError ''EIO'')"
proof -
  from assms(1) have "status_code (acc_get acc (get_doc_id (drop 1 path))) = 200"
    and "res_json (acc_get acc (get_doc_id (drop 1 path))) = Some doc"
    by (simp_all add: get_doc_plain)
  with assms(2) show ?thesis
    by (auto simp: read_def get_doc_def get_doc_body_def NOT_FOUND_def OK_def
        split: sum.splits bool.splits)
qed

lemma readdir_database:
  assumes "path \<noteq> lit ''/''" and "readdir acc path = Inr (Some names)"
  shows "\<exists>doc name.
           get_doc acc (drop 1 path) False False False = Inr doc
         \<and> is_db doc = Inr True
         \<and> getitem doc (lit ''db_name'') = Inr name
         \<and> names = [lit ''.'', lit ''..''] @ map to_filename
             (filter (\<lambda>i. \<not> startswith i (lit ''_design/''))
                (map row_id (acc_all_docs acc name)))"
  using assms
  by (auto simp: readdir_def Let_def filter_map comp_def
      split: sum.splits bool.splits)

subsection \<open>Running the operations on the store\<close>

lemma replicate_two: "replicate 2 x = [x, x]"
  by (simp add: numeral_2_eq_2)

lemmas run_store = demo_def demo_get_def alpha_db_def doc1_def lit_def

lemmas run_ops = get_doc_def get_doc_id_def get_doc_body_def startswith_def NOT_FOUND_def
  OK_def ENOENT_def dict_get_def to_filename_def

lemmas run_dumps = dumps_def newline_indent_def encode_basestring_ascii_def escape_def
  int_repr_def digits.simps replicate_two

lemma demo_alpha:
  "get_doc demo (lit ''alpha'') False False False = Inr alpha_db"
  by (simp add: run_store run_ops)

lemma demo_doc1:
  "get_doc demo (lit ''alpha/doc1.json'') False False False = Inr doc1"
  by (simp add: run_store run_ops)

lemma demo_all_dbs:
  "get_doc demo (lit ''_all_dbs'') False False False = Inr (JList [JStr (lit ''alpha'')])"
  by (simp add: run_store run_ops)

lemma length_dumps_doc1: "length (dumps doc1) = 51"
  by (simp add: doc1_def lit_def run_dumps)

lemma classify_doc1: "classify doc1 = Inr Document"
  by (simp add: classify_def doc1_def lit_def dict_get_def)

section \<open>The claims\<close>

text \<open>
  C1. For a path that resolves to a document (the fetch succeeds and the fetched value is
  classified as a document), the \<open>st_size\<close> that \<open>getattr\<close> reports is the number of
  octets of the rendered content \<open>dumps(doc, indent=2).encode()\<close>, and a read from offset
  0 of that size, or of any larger size, returns exactly that content. \<open>getattr\<close> counts
  the code points of the formatted text and \<open>read\<close> its octets; they agree because
  \<open>json.dumps\<close> escapes every code point outside ASCII.
\<close>

theorem C1_size_is_content_length:
  assumes "path \<noteq> lit ''/''"
    and "get_doc acc (drop 1 path) False False False = Inr doc"
    and "classify doc = Inr Document"
  shows "\<exists>content.
           encode (dumps doc) = Inr content
         \<and> getattr acc path =
             Inr \<lparr>st_mode = S_IFREG OR 493, st_nlink = 1, st_size = Some (length content)\<rparr>
         \<and> read acc path (int (length content)) 0 = Inr content
         \<and> (\<forall>sz. int (length content) \<le> sz \<longrightarrow> read acc path sz 0 = Inr content)"
proof -
  from assms(3) have db: "is_db doc = Inr False" and dc: "is_doc doc = Inr True"
    by (simp_all add: classify_Document)
  from dc obtain d where d: "doc = JDict d"
    by (auto dest: is_doc_True_dict)
  then have fmt: "get_doc_formated doc = Inr (dumps doc)"
    by simp
  let ?content = "map of_nat (dumps doc) :: pybytes"
  have "encode (dumps doc) = Inr ?content"
    by (rule encode_dumps)
  moreover from assms(1,2) db dc fmt have "getattr acc path =
      Inr \<lparr>st_mode = S_IFREG OR 493, st_nlink = 1, st_size = Some (length ?content)\<rparr>"
    by (simp add: getattr_def)
  moreover have "read acc path sz 0 = Inr ?content" if "int (length ?content) \<le> sz" for sz
    using read_document [OF assms(2) dc, of sz 0] pyslice_whole [OF that] by simp
  ultimately show ?thesis by blast
qed

text \<open>The document \<open>doc1\<close> of the store: 51 octets, reported and read.\<close>

theorem C1_size_is_content_length_witness:
  "\<exists>content.
      length content = 51
    \<and> getattr demo (lit ''/alpha/doc1.json'') =
        Inr \<lparr>st_mode = S_IFREG OR 493, st_nlink = 1, st_size = Some 51\<rparr>
    \<and> read demo (lit ''/alpha/doc1.json'') 51 0 = Inr content
    \<and> read demo (lit ''/alpha/doc1.json'') 4096 0 = Inr content"
proof -
  have h1: "lit ''/alpha/doc1.json'' \<noteq> lit ''/''"
    by (simp add: lit_def)
  have h2: "get_doc demo (drop 1 (lit ''/alpha/doc1.json'')) False False False = Inr doc1"
    using demo_doc1 by (simp add: lit_def)
  from C1_size_is_content_length [OF h1 h2 classify_doc1] obtain content where
    c: "encode (dumps doc1) = Inr content"
    and g: "getattr demo (lit ''/alpha/doc1.json'') =
        Inr \<lparr>st_mode = S_IFREG OR 493, st_nlink = 1, st_size = Some (length content)\<rparr>"
    and r: "read demo (lit ''/alpha/doc1.json'') (int (length content)) 0 = Inr content"
    and a: "\<forall>sz. int (length content) \<le> sz \<longrightarrow>
        read demo (lit ''/alpha/doc1.json'') sz 0 = Inr content"
    by blast
  from c have len: "length content = 51"
    by (auto simp: encode_dumps length_dumps_doc1)
  from a len have "read demo (lit ''/alpha/doc1.json'') 4096 0 = Inr content"
    by simp
  with len g r show ?thesis by auto
qed

text \<open>
  C2. A read of a path whose entity is not a document is to fail with \<open>FuseOSError(EIO)\<close>.
  It never returns bytes, but the exception is another one: \<open>EIO\<close> is not imported, so
  \<^verbatim>\<open>raise FuseOSError(EIO)\<close> raises NameError, in \<open>couchfs\<close> and in \<open>couch_fuse\<close>
  alike. Here the path \<open>/alpha\<close> resolves to the database descriptor.
\<close>

theorem C2_read_database_raises_NameError:
  "get_doc demo (drop 1 (lit ''/alpha'')) False False False = Inr alpha_db
   \<and> classify alpha_db = Inr DatabaseDescriptor
   \<and> read demo (lit ''/alpha'') 4096 0 = Inl (NameError ''EIO'')
   \<and> fuse_read demo (lit ''/alpha'') 4096 0 = Inl (NameError ''EIO'')"
  by (simp add: read_def fuse_read_def fuse_get_doc_def classify_def run_store run_ops)

text \<open>
  C3, as amended. Every dict is classified without an exception as exactly one of
  database descriptor (both \<open>db_name\<close> and \<open>update_seq\<close> true), document (else both
  \<open>_id\<close> and \<open>_rev\<close> true) or opaque (else); a dict without the keys is opaque. A value
  that is not a dict is not classified: the \<open>isinstance\<close> assertion of \<open>is_db\<close> and
  \<open>is_doc\<close> fails with AssertionError.
\<close>

theorem C3_classify_dict:
  "(\<exists>b. is_db (JDict d) = Inr b) \<and> (\<exists>b. is_doc (JDict d) = Inr b)
   \<and> classify (JDict d) =
       Inr (if truthy (dict_get d (lit ''db_name'')) \<and> truthy (dict_get d (lit ''update_seq''))
            then DatabaseDescriptor
            else if truthy (dict_get d (lit ''_id'')) \<and> truthy (dict_get d (lit ''_rev''))
            then Document
            else Opaque)
   \<and> ((map_of d (lit ''db_name'') = None \<or> map_of d (lit ''update_seq'') = None)
        \<and> (map_of d (lit ''_id'') = None \<or> map_of d (lit ''_rev'') = None)
        \<longrightarrow> classify (JDict d) = Inr Opaque)
   \<and> ((\<forall>d'. v \<noteq> JDict d') \<longrightarrow>
         is_db v = Inl AssertionError \<and> is_doc v = Inl AssertionError
         \<and> classify v = Inl AssertionError)"
proof (intro conjI impI)
  show "\<exists>b. is_db (JDict d) = Inr b" by simp
  show "\<exists>b. is_doc (JDict d) = Inr b" by simp
  show "classify (JDict d) =
       Inr (if truthy (dict_get d (lit ''db_name'')) \<and> truthy (dict_get d (lit ''update_seq''))
            then DatabaseDescriptor
            else if truthy (dict_get d (lit ''_id'')) \<and> truthy (dict_get d (lit ''_rev''))
            then Document
            else Opaque)"
    by (simp add: classify_def split: bool.splits)
  show "classify (JDict d) = Inr Opaque"
    if "(map_of d (lit ''db_name'') = None \<or> map_of d (lit ''update_seq'') = None)
        \<and> (map_of d (lit ''_id'') = None \<or> map_of d (lit ''_rev'') = None)"
    using that by (auto simp: classify_def dict_get_def split: bool.splits)
  assume "\<forall>d'. v \<noteq> JDict d'"
  then show "is_db v = Inl AssertionError" by (cases v) simp_all
  then show "is_doc v = Inl AssertionError" by (cases v) simp_all
  then show "classify v = Inl AssertionError" by (cases v) (simp_all add: classify_def)
qed

theorem C3_classify_dict_witness:
  "classify doc1 = Inr Document
   \<and> classify alpha_db = Inr DatabaseDescriptor
   \<and> classify (JDict [(lit ''error'', JStr (lit ''not_found''))]) = Inr Opaque
   \<and> classify (JList [JStr (lit ''alpha'')]) = Inl AssertionError"
proof -
  have "classify doc1 = Inr Document"
    using C3_classify_dict [of "[(lit ''_id'', JStr (lit ''doc1'')),
      (lit ''_rev'', JStr (lit ''1-abc'')), (lit ''val'', JInt 42)]" JNull]
    by (simp add: doc1_def lit_def dict_get_def)
  moreover have "classify alpha_db = Inr DatabaseDescriptor"
    using C3_classify_dict [of "[(lit ''db_name'', JStr (lit ''alpha'')),
      (lit ''update_seq'', JInt 5)]" JNull]
    by (simp add: alpha_db_def lit_def dict_get_def)
  moreover have "classify (JDict [(lit ''error'', JStr (lit ''not_found''))]) = Inr Opaque"
    using C3_classify_dict [of "[(lit ''error'', JStr (lit ''not_found''))]" JNull]
    by (simp add: lit_def dict_get_def)
  moreover have "classify (JList [JStr (lit ''alpha'')]) = Inl AssertionError"
    using C3_classify_dict [of "[]" "JList [JStr (lit ''alpha'')]"]
    by simp
  ultimately show ?thesis by simp
qed

text \<open>
  The claim as it was stated fails on a value that is not a dict, such as the JSON array
  that \<open>_all_dbs\<close> answers with: it is not opaque, the classification raises.
\<close>

theorem C3_classify_counterexample:
  "is_db (JList [JStr (lit ''alpha'')]) = Inl AssertionError
   \<and> is_doc (JList [JStr (lit ''alpha'')]) = Inl AssertionError
   \<and> classify (JList [JStr (lit ''alpha'')]) \<noteq> Inr Opaque"
  by (simp add: classify_def)

text \<open>
  C4. Status 404 raises \<open>FuseOSError(ENOENT)\<close> (lemma \<open>get_doc_not_found\<close>). Any other
  status but 200 is to be logged only, and the body returned. The logging call itself
  fails: its format string has two fields and gets one value, so \<open>_get_doc\<close> raises
  IndexError and returns nothing. Here the address \<open>_busy\<close> answers with status 500
  and the address \<open>nothing\<close> with status 404.
\<close>

theorem C4_other_status_raises_IndexError:
  "status_code (acc_get demo (get_doc_id (lit ''_busy''))) = 500
   \<and> get_doc demo (lit ''_busy'') False False False = Inl IndexError
   \<and> getattr demo (lit ''/_busy'') = Inl IndexError
   \<and> fuse_get_doc demo (lit ''_busy'') False = Inl IndexError
   \<and> status_code (acc_get demo (get_doc_id (lit ''nothing''))) = 404
   \<and> get_doc demo (lit ''nothing'') False False False = Inl (FuseOSError ENOENT)"
  by (simp add: getattr_def fuse_get_doc_def run_store run_ops)

text \<open>
  C5. A body that is not JSON is to be returned as the response's text. The handler
  \<^verbatim>\<open>except JSONDecoder\<close> names a class that is not an exception, so the
  ValueError of \<open>res.json()\<close> turns into a TypeError that leaves \<open>_get_doc_body\<close> and
  \<open>_get_doc\<close>. Here the address \<open>_utils\<close> answers with an HTML page.
\<close>

theorem C5_undecodable_body_raises_TypeError:
  "res_json (acc_get demo (lit ''_utils'')) = None
   \<and> get_doc_body (acc_get demo (lit ''_utils'')) = Inl TypeError
   \<and> get_doc demo (lit ''_utils'') False False False = Inl TypeError
   \<and> fuse_get_doc demo (lit ''_utils'') False = Inl TypeError"
  by (simp add: fuse_get_doc_def run_store run_ops)

text \<open>
  C6. Decoding an encoded name gives the id back:
  \<open>_get_doc_id(x + '.json') = x\<close>. The last occurrence of the marker in an encoded
  name is the one that was appended, so this holds for every id \<open>x\<close>, and in particular
  for every id that does not contain the marker.
\<close>

theorem C6_roundtrip:
  "get_doc_id (to_filename x) = x"
  by (simp add: get_doc_id_def to_filename_def rpartition_append_sep lit_json_nonempty)

theorem C6_roundtrip_witness:
  "get_doc_id (to_filename (lit ''doc1'')) = lit ''doc1''"
  by (rule C6_roundtrip)

text \<open>
  C7. A name that ends with the marker loses it (lemma \<open>get_doc_id_suffix\<close>) and a name
  in which the marker does not occur is returned unchanged (lemma \<open>get_doc_id_absent\<close>).
  A name that does not end with the marker but contains it is not returned unchanged:
  \<open>rpartition\<close> cuts at the last occurrence wherever it stands, and the rest of the name
  is lost with the marker.
\<close>

theorem C7_marker_inside_name_truncates:
  "get_doc_id (lit ''a.json.bak'') = lit ''a''"
  by (simp add: get_doc_id_def lit_def startswith_def)

text \<open>
  C8. When the listing of a path other than the root returns names, the path resolved to
  a database descriptor and the names are \<open>'.'\<close>, \<open>'..'\<close> and then, for the rows of that
  database: every name is the file name of the id it decodes to, that id is the id of a
  row and does not start with \<open>'_design/'\<close>; and the file name of a row's id is listed
  exactly when the id does not start with \<open>'_design/'\<close>.
\<close>

theorem C8_listing_excludes_design_documents:
  assumes "path \<noteq> lit ''/''" and "readdir acc path = Inr (Some names)"
  shows "\<exists>doc name.
           get_doc acc (drop 1 path) False False False = Inr doc
         \<and> is_db doc = Inr True
         \<and> getitem doc (lit ''db_name'') = Inr name
         \<and> take 2 names = [lit ''.'', lit ''..'']
         \<and> (\<forall>n \<in> set (drop 2 names).
               n = to_filename (get_doc_id n)
             \<and> get_doc_id n \<in> row_id ` set (acc_all_docs acc name)
             \<and> \<not> startswith (get_doc_id n) (lit ''_design/''))
         \<and> (\<forall>x \<in> set (acc_all_docs acc name).
               to_filename (row_id x) \<in> set (drop 2 names)
                 \<longleftrightarrow> \<not> startswith (row_id x) (lit ''_design/''))"
proof -
  from readdir_database [OF assms] obtain doc name where
    doc: "get_doc acc (drop 1 path) False False False = Inr doc"
    and db: "is_db doc = Inr True"
    and name: "getitem doc (lit ''db_name'') = Inr name"
    and names: "names = [lit ''.'', lit ''..''] @ map to_filename
             (filter (\<lambda>i. \<not> startswith i (lit ''_design/''))
                (map row_id (acc_all_docs acc name)))"
    by blast
  have rest: "drop 2 names = map to_filename
             (filter (\<lambda>i. \<not> startswith i (lit ''_design/''))
                (map row_id (acc_all_docs acc name)))"
    by (simp add: names)
  have "take 2 names = [lit ''.'', lit ''..'']"
    by (simp add: names)
  moreover have "\<forall>n \<in> set (drop 2 names).
               n = to_filename (get_doc_id n)
             \<and> get_doc_id n \<in> row_id ` set (acc_all_docs acc name)
             \<and> \<not> startswith (get_doc_id n) (lit ''_design/'')"
    unfolding rest by (auto simp: get_doc_id_to_filename)
  moreover have "\<forall>x \<in> set (acc_all_docs acc name).
               to_filename (row_id x) \<in> set (drop 2 names)
                 \<longleftrightarrow> \<not> startswith (row_id x) (lit ''_design/'')"
    unfolding rest by (auto simp: to_filename_inject)
  ultimately show ?thesis using doc db name by blast
qed

text \<open>The database \<open>alpha\<close> with the rows \<open>doc1\<close> and \<open>_design/view1\<close>.\<close>

theorem C8_listing_excludes_design_documents_witness:
  "readdir demo (lit ''/alpha'') = Inr (Some [lit ''.'', lit ''..'', lit ''doc1.json''])
   \<and> (\<exists>doc name.
           get_doc demo (drop 1 (lit ''/alpha'')) False False False = Inr doc
         \<and> is_db doc = Inr True
         \<and> getitem doc (lit ''db_name'') = Inr name
         \<and> take 2 [lit ''.'', lit ''..'', lit ''doc1.json''] = [lit ''.'', lit ''..'']
         \<and> (\<forall>n \<in> set (drop 2 [lit ''.'', lit ''..'', lit ''doc1.json'']).
               n = to_filename (get_doc_id n)
             \<and> get_doc_id n \<in> row_id ` set (acc_all_docs demo name)
             \<and> \<not> startswith (get_doc_id n) (lit ''_design/''))
         \<and> (\<forall>x \<in> set (acc_all_docs demo name).
               to_filename (row_id x) \<in> set (drop 2 [lit ''.'', lit ''..'', lit ''doc1.json''])
                 \<longleftrightarrow> \<not> startswith (row_id x) (lit ''_design/'')))"
proof -
  have h1: "lit ''/alpha'' \<noteq> lit ''/''"
    by (simp add: lit_def)
  have h2: "readdir demo (lit ''/alpha'') = Inr (Some [lit ''.'', lit ''..'', lit ''doc1.json''])"
    by (simp add: readdir_def run_store run_ops)
  from h2 C8_listing_excludes_design_documents [OF h1 h2] show ?thesis
    by (rule conjI)
qed

text \<open>
  C9. For a document whose rendered content has \<open>n\<close> octets, and an offset and a size
  that are not negative: the read returns no octets when \<open>n \<le> offset\<close>; and when
  \<open>offset + size > n\<close> it returns the content from the offset to its end, which is
  \<open>n - offset\<close> octets for an offset within the content (and none beyond it, where the
  difference is negative).
\<close>

theorem C9_read_clipped:
  assumes "get_doc acc (drop 1 path) False False False = Inr doc"
    and "is_doc doc = Inr True"
    and "0 \<le> offset" and "0 \<le> sz"
  shows "\<exists>content out.
           encode (dumps doc) = Inr content
         \<and> read acc path sz offset = Inr out
         \<and> (int (length content) \<le> offset \<longrightarrow> out = [])
         \<and> (int (length content) < offset + sz \<longrightarrow>
              out = drop (nat offset) content
              \<and> int (length out) = max 0 (int (length content) - offset))
         \<and> (offset \<le> int (length content) \<and> int (length content) < offset + sz \<longrightarrow>
              int (length out) = int (length content) - offset)"
proof -
  let ?content = "map of_nat (dumps doc) :: pybytes"
  let ?out = "take (nat sz) (drop (nat offset) ?content)"
  have "encode (dumps doc) = Inr ?content"
    by (rule encode_dumps)
  moreover have "read acc path sz offset = Inr ?out"
    by (simp add: read_document [OF assms(1,2)] pyslice_nonneg [OF assms(3,4)])
  moreover have "?out = []" if "int (length ?content) \<le> offset"
    using that assms(3) by simp
  moreover have "?out = drop (nat offset) ?content
      \<and> int (length ?out) = max 0 (int (length ?content) - offset)"
    if "int (length ?content) < offset + sz"
    using that assms(3,4) by auto
  moreover have "int (length ?out) = int (length ?content) - offset"
    if "offset \<le> int (length ?content) \<and> int (length ?content) < offset + sz"
    using that assms(3,4) by auto
  ultimately show ?thesis by blast
qed

text \<open>
  Of the 51 octets of \<open>doc1\<close>, a read of 100 from offset 49 returns the last two, and a
  read from offset 60 returns none.
\<close>

theorem C9_read_clipped_witness:
  "\<exists>content out.
      encode (dumps doc1) = Inr content \<and> length content = 51
    \<and> read demo (lit ''/alpha/doc1.json'') 100 49 = Inr out \<and> length out = 2
    \<and> read demo (lit ''/alpha/doc1.json'') 100 60 = Inr []"
proof -
  have h1: "get_doc demo (drop 1 (lit ''/alpha/doc1.json'')) False False False = Inr doc1"
    using demo_doc1 by (simp add: lit_def)
  have h2: "is_doc doc1 = Inr True"
    by (simp add: doc1_def lit_def dict_get_def)
  have h3: "(0::int) \<le> 49" and h4: "(0::int) \<le> 100" and h5: "(0::int) \<le> 60"
    by simp_all
  from C9_read_clipped [OF h1 h2 h3 h4] obtain content out where
    c: "encode (dumps doc1) = Inr content"
    and r: "read demo (lit ''/alpha/doc1.json'') 100 49 = Inr out"
    and clip: "49 \<le> int (length content) \<and> int (length content) < 49 + 100 \<longrightarrow>
        int (length out) = int (length content) - 49"
    by blast
  from c have len: "length content = 51"
    by (auto simp: encode_dumps length_dumps_doc1)
  with clip have two: "length out = 2" by simp
  from C9_read_clipped [OF h1 h2 h5 h4] obtain content' out' where
    c': "encode (dumps doc1) = Inr content'"
    and r': "read demo (lit ''/alpha/doc1.json'') 100 60 = Inr out'"
    and beyond: "int (length content') \<le> 60 \<longrightarrow> out' = []"
    by blast
  from c' have "length content' = 51"
    by (auto simp: encode_dumps length_dumps_doc1)
  with beyond r' have "read demo (lit ''/alpha/doc1.json'') 100 60 = Inr []"
    by simp
  with c len r two show ?thesis by blast
qed

text \<open>
  C10, as amended. For a path other than the root whose fetched value is a dict that
  \<open>is_db\<close> rejects, \<open>readdir\<close> returns \<open>None\<close>, in \<open>couchfs\<close> and in \<open>couch_fuse\<close>. For a
  fetched value that is not a dict nothing is returned: the assertion of \<open>is_db\<close> fails
  with AssertionError.
\<close>

theorem C10_readdir_none_for_other_dicts:
  assumes "path \<noteq> lit ''/''" and "is_db (JDict d) = Inr False"
  shows "(get_doc acc (drop 1 path) False False False = Inr (JDict d)
            \<longrightarrow> readdir acc path = Inr None)
       \<and> (fuse_get_doc acc (drop 1 path) False = Inr (Decoded (JDict d))
            \<longrightarrow> fuse_readdir acc path = Inr None)
       \<and> ((\<forall>d'. v \<noteq> JDict d') \<and> get_doc acc (drop 1 path) False False False = Inr v
            \<longrightarrow> readdir acc path = Inl AssertionError)"
proof (intro conjI impI)
  assume "get_doc acc (drop 1 path) False False False = Inr (JDict d)"
  with assms show "readdir acc path = Inr None"
    by (simp add: readdir_def del: is_db.simps split: bool.splits)
next
  assume "fuse_get_doc acc (drop 1 path) False = Inr (Decoded (JDict d))"
  with assms show "fuse_readdir acc path = Inr None"
    by (simp add: fuse_readdir_def del: is_db.simps split: bool.splits)
next
  assume "(\<forall>d'. v \<noteq> JDict d') \<and> get_doc acc (drop 1 path) False False False = Inr v"
  with assms(1) show "readdir acc path = Inl AssertionError"
    by (cases v) (simp_all add: readdir_def)
qed

theorem C10_readdir_none_for_other_dicts_witness:
  "readdir demo (lit ''/alpha/doc1.json'') = Inr None
   \<and> fuse_readdir demo (lit ''/alpha/doc1'') = Inr None
   \<and> readdir demo (lit ''/_all_dbs'') = Inl AssertionError"
proof -
  let ?d = "[(lit ''_id'', JStr (lit ''doc1'')), (lit ''_rev'', JStr (lit ''1-abc'')),
    (lit ''val'', JInt 42)]"
  have db: "is_db (JDict ?d) = Inr False"
    by (simp add: lit_def dict_get_def)
  have p1: "lit ''/alpha/doc1.json'' \<noteq> lit ''/''" and p2: "lit ''/alpha/doc1'' \<noteq> lit ''/''"
    and p3: "lit ''/_all_dbs'' \<noteq> lit ''/''"
    by (simp_all add: lit_def)
  have "get_doc demo (drop 1 (lit ''/alpha/doc1.json'')) False False False = Inr (JDict ?d)"
    using demo_doc1 by (simp add: lit_def doc1_def)
  with C10_readdir_none_for_other_dicts [OF p1 db, where acc = demo and v = JNull]
  have "readdir demo (lit ''/alpha/doc1.json'') = Inr None"
    by blast
  moreover have "fuse_get_doc demo (drop 1 (lit ''/alpha/doc1'')) False = Inr (Decoded (JDict ?d))"
    by (simp add: fuse_get_doc_def run_store run_ops)
  with C10_readdir_none_for_other_dicts [OF p2 db, where acc = demo and v = JNull]
  have "fuse_readdir demo (lit ''/alpha/doc1'') = Inr None"
    by blast
  moreover have "get_doc demo (drop 1 (lit ''/_all_dbs'')) False False False
      = Inr (JList [JStr (lit ''alpha'')])"
    using demo_all_dbs by (simp add: lit_def)
  with C10_readdir_none_for_other_dicts [OF p3 db, where acc = demo and v = "JList [JStr (lit ''alpha'')]"]
  have "readdir demo (lit ''/_all_dbs'') = Inl AssertionError"
    by simp
  ultimately show ?thesis by simp
qed

text \<open>
  The claim as it was stated fails at the path \<open>/_all_dbs\<close>, whose fetched value is a JSON
  array: the listing does not return \<open>None\<close>, it raises.
\<close>

theorem C10_readdir_counterexample:
  "get_doc demo (drop 1 (lit ''/_all_dbs'')) False False False
     = Inr (JList [JStr (lit ''alpha'')])
   \<and> readdir demo (lit ''/_all_dbs'') = Inl AssertionError
   \<and> fuse_readdir demo (lit ''/_all_dbs'') = Inl AssertionError"
  by (simp add: readdir_def fuse_readdir_def fuse_get_doc_def run_store run_ops)

end
